theory Spec2Isabelle
  imports Complex_Main "HOL-Library.AList"
begin

section \<open>Numbers held by the arrays\<close>

text \<open>
  The matrices and the count vectors of \<^verbatim>\<open>normalization.py\<close> are numpy float
  arrays. A float is a finite real number, an infinity or NaN. The sign of a
  zero is not tracked.
\<close>

datatype fl = Fin real | PInf | NInf | NaN

text \<open>\<^verbatim>\<open>a <= b\<close>, \<^verbatim>\<open>a > b\<close> and \<^verbatim>\<open>a >= b\<close> on floats: False as soon as one side is NaN.\<close>

fun fle :: "fl \<Rightarrow> fl \<Rightarrow> bool" where
  "fle NaN _ = False"
| "fle _ NaN = False"
| "fle (Fin a) (Fin b) = (a \<le> b)"
| "fle NInf _ = True"
| "fle _ PInf = True"
| "fle _ _ = False"

definition fgt :: "fl \<Rightarrow> fl \<Rightarrow> bool" where
  "fgt a b = (a \<noteq> NaN \<and> b \<noteq> NaN \<and> \<not> fle a b)"

definition fge :: "fl \<Rightarrow> fl \<Rightarrow> bool" where
  "fge a b = fle b a"

text \<open>
  The arithmetic of the array format is a parameter of the model: the function
  that rounds the exact result of an operation to a float, and the library's sum
  of a row (whose order of additions the source does not fix). What is fixed of
  them holds of IEEE single and double precision with rounding to nearest: a
  rounded real is not NaN; rounding is monotone; a quotient \<open>n / 2^k\<close> with
  \<open>|n| \<le> 2^24\<close> and \<open>k \<le> 24\<close> is a float and rounds to itself; between
  \<open>2^-10\<close> and \<open>2^24\<close> in size a real rounds to a finite float within the
  fraction \<open>2^-20\<close> of it; and a row of integers whose sizes add up to at most
  \<open>2^24\<close> sums without rounding. Overflow to an infinity and underflow to
  zero are left open, as they are in the format.
\<close>

definition dyadic :: "real \<Rightarrow> bool" where
  "dyadic x = (\<exists>(n::int) (k::nat). k \<le> 24 \<and> \<bar>n\<bar> \<le> 2 ^ 24 \<and> x = of_int n / 2 ^ k)"

definition rounding :: "(real \<Rightarrow> fl) \<Rightarrow> bool" where
  "rounding rd =
     ((\<forall>x. rd x \<noteq> NaN)
      \<and> (\<forall>x y. x \<le> y \<longrightarrow> fle (rd x) (rd y))
      \<and> (\<forall>x. dyadic x \<longrightarrow> rd x = Fin x)
      \<and> (\<forall>x. 1 / 2 ^ 10 \<le> \<bar>x\<bar> \<and> \<bar>x\<bar> \<le> 2 ^ 24
             \<longrightarrow> (\<exists>y. rd x = Fin y \<and> \<bar>y - x\<bar> \<le> \<bar>x\<bar> / 2 ^ 20)))"

definition summation :: "(fl list \<Rightarrow> fl) \<Rightarrow> bool" where
  "summation sm =
     (\<forall>ns :: int list. sum_list (map abs ns) \<le> 2 ^ 24
        \<longrightarrow> sm (map (\<lambda>n. Fin (of_int n)) ns) = Fin (of_int (sum_list ns)))"

text \<open>Exact addition and the exact sum: one arithmetic among those allowed.\<close>

fun xadd :: "fl \<Rightarrow> fl \<Rightarrow> fl" where
  "xadd NaN _ = NaN"
| "xadd _ NaN = NaN"
| "xadd (Fin a) (Fin b) = Fin (a + b)"
| "xadd PInf NInf = NaN"
| "xadd NInf PInf = NaN"
| "xadd PInf _ = PInf"
| "xadd _ PInf = PInf"
| "xadd NInf _ = NInf"
| "xadd _ NInf = NInf"

definition xsum :: "fl list \<Rightarrow> fl" where
  "xsum xs = foldr xadd xs (Fin 0)"

typedef arith = "{(rd :: real \<Rightarrow> fl, sm :: fl list \<Rightarrow> fl). rounding rd \<and> summation sm}"
proof -
  have "rounding Fin"
    by (auto simp: rounding_def)
  moreover have "xsum (map (\<lambda>n. Fin (of_int n)) ns) = Fin (of_int (sum_list ns))"
    for ns :: "int list"
    by (induction ns) (simp_all add: xsum_def)
  then have "summation xsum"
    by (simp add: summation_def)
  ultimately show ?thesis by auto
qed

definition rnd :: "arith \<Rightarrow> real \<Rightarrow> fl" where
  "rnd ar = fst (Rep_arith ar)"

definition fsum :: "arith \<Rightarrow> fl list \<Rightarrow> fl" where
  "fsum ar = snd (Rep_arith ar)"

text \<open>
  The operations. Where the exact result is one of the operands, or 0 or 1, no
  rounding takes place: \<open>a + 0\<close>, \<open>a * 1\<close>, \<open>a / 1\<close>, \<open>a / a\<close>, \<open>0 / b\<close>.
  Division by zero gives an infinity, or NaN for \<open>0 / 0\<close>.
\<close>

fun fadd :: "arith \<Rightarrow> fl \<Rightarrow> fl \<Rightarrow> fl" where
  "fadd ar NaN _ = NaN"
| "fadd ar _ NaN = NaN"
| "fadd ar (Fin a) (Fin b) =
     (if a = 0 then Fin b else if b = 0 then Fin a else rnd ar (a + b))"
| "fadd ar PInf NInf = NaN"
| "fadd ar NInf PInf = NaN"
| "fadd ar PInf _ = PInf"
| "fadd ar _ PInf = PInf"
| "fadd ar NInf _ = NInf"
| "fadd ar _ NInf = NInf"

fun fmul :: "arith \<Rightarrow> fl \<Rightarrow> fl \<Rightarrow> fl" where
  "fmul ar NaN _ = NaN"
| "fmul ar _ NaN = NaN"
| "fmul ar (Fin a) (Fin b) =
     (if a = 1 then Fin b else if b = 1 then Fin a else rnd ar (a * b))"
| "fmul ar (Fin a) PInf = (if 0 < a then PInf else if a < 0 then NInf else NaN)"
| "fmul ar (Fin a) NInf = (if 0 < a then NInf else if a < 0 then PInf else NaN)"
| "fmul ar PInf (Fin b) = (if 0 < b then PInf else if b < 0 then NInf else NaN)"
| "fmul ar NInf (Fin b) = (if 0 < b then NInf else if b < 0 then PInf else NaN)"
| "fmul ar PInf PInf = PInf"
| "fmul ar NInf NInf = PInf"
| "fmul ar PInf NInf = NInf"
| "fmul ar NInf PInf = NInf"

fun fdiv :: "arith \<Rightarrow> fl \<Rightarrow> fl \<Rightarrow> fl" where
  "fdiv ar NaN _ = NaN"
| "fdiv ar _ NaN = NaN"
| "fdiv ar (Fin a) (Fin b) =
     (if b = 0 then (if 0 < a then PInf else if a < 0 then NInf else NaN)
      else if b = 1 then Fin a
      else if a = b then Fin 1
      else if a = 0 then Fin 0
      else rnd ar (a / b))"
| "fdiv ar (Fin a) PInf = Fin 0"
| "fdiv ar (Fin a) NInf = Fin 0"
| "fdiv ar PInf (Fin b) = (if 0 \<le> b then PInf else NInf)"
| "fdiv ar NInf (Fin b) = (if 0 \<le> b then NInf else PInf)"
| "fdiv ar _ _ = NaN"

text \<open>
  \<^verbatim>\<open>np.median\<close>: NaN for an empty array or one holding a NaN; otherwise the
  middle element of the sorted array, or the mean of the two middle ones.
\<close>

fun insort_fl :: "fl \<Rightarrow> fl list \<Rightarrow> fl list" where
  "insort_fl x [] = [x]"
| "insort_fl x (y # ys) = (if fle x y then x # y # ys else y # insort_fl x ys)"

definition sort_fl :: "fl list \<Rightarrow> fl list" where
  "sort_fl xs = foldr insort_fl xs []"

definition median :: "arith \<Rightarrow> fl list \<Rightarrow> fl" where
  "median ar xs =
     (if xs = [] \<or> NaN \<in> set xs then NaN
      else let s = sort_fl xs; n = length xs
           in if odd n then s ! (n div 2)
              else fdiv ar (fadd ar (s ! (n div 2 - 1)) (s ! (n div 2))) (Fin 2))"

text \<open>Indexing with a boolean mask, \<^verbatim>\<open>xs[mask]\<close>: the entries where the mask is True.\<close>

definition select :: "bool list \<Rightarrow> 'a list \<Rightarrow> 'a list" where
  "select msk xs = map fst (filter snd (zip xs msk))"

section \<open>Matrices\<close>

text \<open>
  A matrix is its list of rows, all of one length. A dense matrix stores every
  entry. A sparse matrix stores some entries only (\<open>Some\<close>); the others
  (\<open>None\<close>) read as zero and are never written by a scaling of the stored data.
\<close>

datatype matrix = Dense "fl list list" | Sparse "fl option list list"

fun issparse :: "matrix \<Rightarrow> bool" where
  "issparse (Dense _) = False"
| "issparse (Sparse _) = True"

definition entry :: "fl option \<Rightarrow> fl" where
  "entry e = (case e of None \<Rightarrow> Fin 0 | Some x \<Rightarrow> x)"

fun rows_of :: "matrix \<Rightarrow> fl list list" where
  "rows_of (Dense rs) = rs"
| "rows_of (Sparse rs) = map (map entry) rs"

definition ncols :: "fl list list \<Rightarrow> nat" where
  "ncols rs = (case rs of [] \<Rightarrow> 0 | r # _ \<Rightarrow> length r)"

text \<open>
  \<^verbatim>\<open>sklearn.utils.sparsefuncs.inplace_row_scale(X, scale)\<close>, a function of the
  library: it multiplies the stored entries of row \<open>i\<close> by \<open>scale[i]\<close>, in
  the storage of \<open>X\<close>, and returns nothing.
\<close>

definition inplace_row_scale :: "arith \<Rightarrow> fl option list list \<Rightarrow> fl list \<Rightarrow> fl option list list" where
  "inplace_row_scale ar rs scale = map2 (\<lambda>r s. map (map_option (\<lambda>x. fmul ar x s)) r) rs scale"

section \<open>The row-scaling primitive\<close>

text \<open>
  \<^verbatim>\<open>after = np.median(counts[cell_subset]) if cell_subset is not None else np.median(counts)\<close>,
  when \<^verbatim>\<open>after is None\<close>.
\<close>

definition resolve_after :: "arith \<Rightarrow> fl list \<Rightarrow> fl option \<Rightarrow> bool list option \<Rightarrow> fl" where
  "resolve_after ar counts after cell_subset =
     (case after of
        Some a \<Rightarrow> a
      | None \<Rightarrow> (case cell_subset of
                   Some cs \<Rightarrow> median ar (select cs counts)
                 | None \<Rightarrow> median ar counts))"

text \<open>
  The divisors: \<^verbatim>\<open>counts /= after\<close>, or with a mask 1 outside it and
  \<^verbatim>\<open>counts / after\<close> inside; then \<^verbatim>\<open>counts += (counts == 0)\<close>.
\<close>

definition divisors :: "arith \<Rightarrow> fl list \<Rightarrow> fl option \<Rightarrow> bool list option \<Rightarrow> fl list" where
  "divisors ar counts after cell_subset =
     (let a = resolve_after ar counts after cell_subset;
          counts1 = (case cell_subset of
                       None \<Rightarrow> map (\<lambda>c. fdiv ar c a) counts
                     | Some cs \<Rightarrow> map2 (\<lambda>c b. if b then fdiv ar c a else Fin 1) counts cs)
      in map (\<lambda>c. fadd ar c (if c = Fin 0 then Fin 1 else Fin 0)) counts1)"

text \<open>
  \<^verbatim>\<open>X /= counts[:, None]\<close> on a dense matrix,
  \<^verbatim>\<open>inplace_row_scale(X, 1/counts)\<close> on a sparse one.
\<close>

fun row_scale :: "arith \<Rightarrow> matrix \<Rightarrow> fl list \<Rightarrow> matrix" where
  "row_scale ar (Dense rs) ds = Dense (map2 (\<lambda>r d. map (\<lambda>x. fdiv ar x d) r) rs ds)"
| "row_scale ar (Sparse rs) ds = Sparse (inplace_row_scale ar rs (map (fdiv ar (Fin 1)) ds))"

text \<open>
  \<^verbatim>\<open>_normalize_data(X, counts, after, cell_subset, copy)\<close>. The result is the
  storage of the matrix passed in as it is after the call, and the value
  returned. On the sparse path the name \<open>X\<close> is rebound to what
  \<^verbatim>\<open>inplace_row_scale\<close> returns, which is \<^verbatim>\<open>None\<close>, and that is what
  \<^verbatim>\<open>return X if copy else None\<close> then returns. The function is private: its
  callers pass the row sums of \<open>X\<close> as \<open>counts\<close> and a mask of the same
  length.
\<close>

definition normalize_data ::
  "arith \<Rightarrow> matrix \<Rightarrow> fl list \<Rightarrow> fl option \<Rightarrow> bool list option \<Rightarrow> bool \<Rightarrow> matrix \<times> matrix option" where
  "normalize_data ar X counts after cell_subset copy =
     (let X' = row_scale ar X (divisors ar counts after cell_subset)
      in if copy then (X, if issparse X then None else Some X')
         else (X', None))"

section \<open>The annotated data object\<close>

text \<open>
  What the functions use of an \<^verbatim>\<open>AnnData\<close> object: the primary matrix
  \<^verbatim>\<open>data.X\<close>, the layers \<^verbatim>\<open>data.layers\<close> by name, and the per-row metadata
  \<^verbatim>\<open>data.obs\<close> by field name. Each matrix has storage of its own: scaling one
  in place changes no other. An exception leaves the object as it is at the
  moment it is raised. The mapping that a call with \<open>inplace = False\<close> returns
  sends a name to a matrix or to \<^verbatim>\<open>None\<close>.
\<close>

record adata =
  adata_X :: matrix
  adata_layers :: "(string \<times> matrix) list"
  adata_obs :: "(string \<times> fl list) list"

datatype exn = ValueError | NameError | KeyError

datatype layer_sel = All | Names "string list"

type_synonym dat = "string \<rightharpoonup> matrix option"

section \<open>normalize\_quantile\<close>

text \<open>
  \<^verbatim>\<open>gene_subset = (X > counts_per_cell[:, None]*quantile).sum(0)\<close>, then
  \<^verbatim>\<open>gene_subset = (np.ravel(gene_subset) == 0)\<close>: column \<open>j\<close> is kept when no
  row has its entry above the row's total times the quantile.
\<close>

definition gene_subset :: "arith \<Rightarrow> fl list list \<Rightarrow> real \<Rightarrow> bool list" where
  "gene_subset ar rs quantile =
     map (\<lambda>j. length (filter (\<lambda>r. fgt (r ! j) (fmul ar (fsum ar r) (Fin quantile))) rs) = 0)
         [0..<ncols rs]"

text \<open>
  \<^verbatim>\<open>X = X if gene_subset is None else data[:, gene_subset].X\<close> and
  \<^verbatim>\<open>counts_per_cell = X.sum(1)\<close>: the part of a row that enters its sum, and the
  sums. \<^verbatim>\<open>gene_subset\<close> stays \<^verbatim>\<open>None\<close> unless \<^verbatim>\<open>quantile < 1\<close>.
\<close>

definition used_row :: "arith \<Rightarrow> fl list list \<Rightarrow> real \<Rightarrow> fl list \<Rightarrow> fl list" where
  "used_row ar rs quantile r = (if quantile < 1 then select (gene_subset ar rs quantile) r else r)"

definition counts_per_cell :: "arith \<Rightarrow> fl list list \<Rightarrow> real \<Rightarrow> fl list" where
  "counts_per_cell ar rs quantile = map (\<lambda>r. fsum ar (used_row ar rs quantile r)) rs"

text \<open>The \<^verbatim>\<open>if layer_norm == 'after': ... else: raise ValueError\<close> chain.\<close>

definition layer_after ::
  "arith \<Rightarrow> string option \<Rightarrow> real option \<Rightarrow> fl list \<Rightarrow> bool list \<Rightarrow> exn + fl option" where
  "layer_after ar layer_norm cell_sum_after counts cell_subset =
     (if layer_norm = Some ''after'' then Inr (map_option Fin cell_sum_after)
      else if layer_norm = Some ''X'' then Inr (Some (median ar (select cell_subset counts)))
      else if layer_norm = None then Inr None
      else Inl ValueError)"

text \<open>
  The loop over the layers. A layer that is missing raises \<^verbatim>\<open>KeyError\<close>, and
  the layers scaled in place before it stay scaled.
\<close>

fun norm_layers ::
  "arith \<Rightarrow> bool \<Rightarrow> fl option \<Rightarrow> string list \<Rightarrow> adata \<Rightarrow> dat \<Rightarrow> (exn + unit) \<times> adata \<times> dat" where
  "norm_layers ar inplace after [] data dat = (Inr (), data, dat)"
| "norm_layers ar inplace after (layer # rest) data dat =
     (case map_of (adata_layers data) layer of
        None \<Rightarrow> (Inl KeyError, data, dat)
      | Some L \<Rightarrow>
          (let counts = map (fsum ar) (rows_of L);
               (L', r) = normalize_data ar L counts after None (\<not> inplace)
           in norm_layers ar inplace after rest
                (data\<lparr>adata_layers := AList.update layer L' (adata_layers data)\<rparr>)
                (if inplace then dat else dat(layer \<mapsto> r))))"

definition layer_names :: "adata \<Rightarrow> layer_sel \<Rightarrow> string list" where
  "layer_names data layers =
     (case layers of All \<Rightarrow> map fst (adata_layers data) | Names ls \<Rightarrow> ls)"

text \<open>
  \<^verbatim>\<open>normalize_quantile\<close>. The result is what the call returns or raises, and
  the data object as the call leaves it. The numbers \<^verbatim>\<open>quantile\<close>,
  \<^verbatim>\<open>min_counts\<close> and \<^verbatim>\<open>cell_sum_after\<close> are the floats that the comparisons and
  divisions take, after numpy's cast of a scalar to the format of the array. Line 108 assigns to \<^verbatim>\<open>adata.obs\<close>;
  the function has no name \<^verbatim>\<open>adata\<close> (its parameter is \<^verbatim>\<open>data\<close>) and
  the module defines none, so that line raises \<^verbatim>\<open>NameError\<close>.
\<close>

definition normalize_quantile ::
  "arith \<Rightarrow> adata \<Rightarrow> real option \<Rightarrow> real \<Rightarrow> real \<Rightarrow> string option \<Rightarrow> bool \<Rightarrow> layer_sel \<Rightarrow>
   string option \<Rightarrow> (exn + dat option) \<times> adata" where
  "normalize_quantile ar data cell_sum_after quantile min_counts key_n_counts inplace layers
     layer_norm =
     (if quantile < 0 \<or> quantile > 1 then (Inl ValueError, data)
      else
        let counts = counts_per_cell ar (rows_of (adata_X data)) quantile
        in if key_n_counts \<noteq> None then (Inl NameError, data)
           else
             let cell_subset = map (\<lambda>c. fge c (Fin min_counts)) counts
             in case layer_after ar layer_norm cell_sum_after counts cell_subset of
                  Inl e \<Rightarrow> (Inl e, data)
                | Inr after \<Rightarrow>
                    (let (X', r) = normalize_data ar (adata_X data) counts
                                     (map_option Fin cell_sum_after) (Some cell_subset)
                                     (\<not> inplace);
                         data1 = data\<lparr>adata_X := X'\<rparr>;
                         dat = (if inplace then Map.empty else [''X'' \<mapsto> r])
                     in case norm_layers ar inplace after (layer_names data1 layers) data1 dat of
                          (Inl e, data2, dat2) \<Rightarrow> (Inl e, data2)
                        | (Inr u, data2, dat2) \<Rightarrow>
                            (Inr (if inplace then None else Some dat2), data2)))"

text \<open>
  \<^verbatim>\<open>normalize_total\<close>: the call of \<^verbatim>\<open>normalize_quantile\<close> it returns.
  Its parameter \<^verbatim>\<open>counts_per_cell\<close> is not passed on.
\<close>

definition normalize_total ::
  "arith \<Rightarrow> adata \<Rightarrow> real option \<Rightarrow> fl list option \<Rightarrow> string option \<Rightarrow> bool \<Rightarrow> layer_sel \<Rightarrow>
   string option \<Rightarrow> real \<Rightarrow> (exn + dat option) \<times> adata" where
  "normalize_total ar data cell_sum_after counts_per_cell_arg key_n_counts inplace layers
     layer_norm min_counts =
     normalize_quantile ar data cell_sum_after 1 min_counts key_n_counts inplace layers layer_norm"

section \<open>Notions the properties are stated with\<close>

text \<open>
  The columns that enter the row sums: those \<^verbatim>\<open>gene_subset\<close> marks, or all of
  them when \<^verbatim>\<open>gene_subset\<close> stays \<^verbatim>\<open>None\<close>.
\<close>

definition included_columns :: "arith \<Rightarrow> fl list list \<Rightarrow> real \<Rightarrow> nat set" where
  "included_columns ar rs quantile =
     (if quantile < 1 then {j. j < ncols rs \<and> gene_subset ar rs quantile ! j}
      else {j. j < ncols rs})"


text \<open>
  The normalized primary matrix that a call produces: \<^verbatim>\<open>data.X\<close> after the
  call when \<^verbatim>\<open>inplace\<close>, else the entry \<^verbatim>\<open>'X'\<close> of the mapping returned. In
  the same way for a layer.
\<close>

definition normalized_X :: "bool \<Rightarrow> (exn + dat option) \<times> adata \<Rightarrow> matrix option" where
  "normalized_X inplace res =
     (if inplace then Some (adata_X (snd res))
      else (case fst res of
              Inr (Some d) \<Rightarrow> (case d ''X'' of Some r \<Rightarrow> r | None \<Rightarrow> None)
            | _ \<Rightarrow> None))"

definition normalized_layer :: "bool \<Rightarrow> (exn + dat option) \<times> adata \<Rightarrow> string \<Rightarrow> matrix option" where
  "normalized_layer inplace res layer =
     (if inplace then map_of (adata_layers (snd res)) layer
      else (case fst res of
              Inr (Some d) \<Rightarrow> (case d layer of Some r \<Rightarrow> r | None \<Rightarrow> None)
            | _ \<Rightarrow> None))"

text \<open>The values of \<^verbatim>\<open>layer_norm\<close> that do not raise.\<close>

definition valid_layer_norm :: "string option \<Rightarrow> bool" where
  "valid_layer_norm layer_norm =
     (layer_norm = None \<or> layer_norm = Some ''after'' \<or> layer_norm = Some ''X'')"

section \<open>Concrete inputs\<close>

text \<open>The matrix \<^verbatim>\<open>[[1, 0], [3, 0], [5, 6]]\<close> of the docstring of \<^verbatim>\<open>normalize_total\<close>.\<close>

definition doc_rows :: "fl list list" where
  "doc_rows = [[Fin 1, Fin 0], [Fin 3, Fin 0], [Fin 5, Fin 6]]"

definition doc_data :: adata where
  "doc_data = \<lparr>adata_X = Dense doc_rows, adata_layers = [], adata_obs = []\<rparr>"

definition doc_sparse :: matrix where
  "doc_sparse = Sparse [[Some (Fin 1), None], [Some (Fin 3), None], [Some (Fin 5), Some (Fin 6)]]"

text \<open>The matrix of the docstring of \<^verbatim>\<open>normalize_quantile\<close>.\<close>

definition quantile_rows :: "fl list list" where
  "quantile_rows = [[Fin 1, Fin 0, Fin 1], [Fin 3, Fin 0, Fin 1], [Fin 5, Fin 6, Fin 1]]"

definition quantile_data :: adata where
  "quantile_data = \<lparr>adata_X = Dense quantile_rows, adata_layers = [], adata_obs = []\<rparr>"

text \<open>A row of negative values, as scaled or centred data has them.\<close>

definition negative_rows :: "fl list list" where
  "negative_rows = [[Fin (-1), Fin (-3)]]"

text \<open>A matrix with two empty rows.\<close>

definition zero_rows :: "fl list list" where
  "zero_rows = [[Fin 0, Fin 0], [Fin 0, Fin 0], [Fin 1, Fin 1]]"

text \<open>The matrix of the docstring with a layer beside it.\<close>

definition layer_data :: adata where
  "layer_data = \<lparr>adata_X = Dense doc_rows,
     adata_layers = [(''spliced'', Dense [[Fin 2, Fin 0], [Fin 4, Fin 0], [Fin 10, Fin 0]])],
     adata_obs = []\<rparr>"

text \<open>
  The divisor of row \<open>i\<close> before the zero guard (lines 10-14): the count over
  the target total, or 1 for a row outside the mask.
\<close>

definition quotient :: "arith \<Rightarrow> fl list \<Rightarrow> fl option \<Rightarrow> bool list option \<Rightarrow> nat \<Rightarrow> fl" where
  "quotient ar counts after cell_subset i =
     (case cell_subset of
        None \<Rightarrow> fdiv ar (counts ! i) (resolve_after ar counts after cell_subset)
      | Some cs \<Rightarrow> if cs ! i then fdiv ar (counts ! i) (resolve_after ar counts after cell_subset)
                  else Fin 1)"

section \<open>Arithmetic of the floats\<close>

lemma arith_rounding: "rounding (rnd ar)" and arith_summation: "summation (fsum ar)"
  using Rep_arith[of ar] by (auto simp: rnd_def fsum_def case_prod_unfold)

lemma rnd_not_NaN [simp]: "rnd ar x \<noteq> NaN"
  using arith_rounding[of ar] by (simp add: rounding_def)

lemma rnd_mono: "x \<le> y \<Longrightarrow> fle (rnd ar x) (rnd ar y)"
  using arith_rounding[of ar] by (simp add: rounding_def)

lemma rnd_dyadic: "dyadic x \<Longrightarrow> rnd ar x = Fin x"
  using arith_rounding[of ar] by (simp add: rounding_def)

lemma rnd_near:
  "1 / 2 ^ 10 \<le> \<bar>x\<bar> \<Longrightarrow> \<bar>x\<bar> \<le> 2 ^ 24 \<Longrightarrow> \<exists>y. rnd ar x = Fin y \<and> \<bar>y - x\<bar> \<le> \<bar>x\<bar> / 2 ^ 20"
  using arith_rounding[of ar] by (simp add: rounding_def)

lemma fsum_ints:
  "sum_list (map abs ns) \<le> 2 ^ 24 \<Longrightarrow>
   fsum ar (map (\<lambda>n. Fin (of_int n)) ns) = Fin (of_int (sum_list ns))"
  using arith_summation[of ar] by (simp add: summation_def)

lemma dyadic_int: "\<bar>n\<bar> \<le> 2 ^ 24 \<Longrightarrow> dyadic (of_int n)"
  unfolding dyadic_def by (rule exI[of _ n], rule exI[of _ 0]) simp

lemma dyadic_half: "\<bar>n\<bar> \<le> 2 ^ 24 \<Longrightarrow> dyadic (of_int n / 2)"
  unfolding dyadic_def by (rule exI[of _ n], rule exI[of _ 1]) simp

lemma fadd_zero_right [simp]: "fadd ar c (Fin 0) = c"
  by (cases c) simp_all

lemma fdiv_one [simp]: "fdiv ar x (Fin 1) = x"
  by (cases x) simp_all

lemma fmul_one [simp]: "fmul ar x (Fin 1) = x"
  by (cases x) simp_all

lemma fdiv_zero_left: "d \<noteq> NaN \<Longrightarrow> d \<noteq> Fin 0 \<Longrightarrow> fdiv ar (Fin 0) d = Fin 0"
  by (cases d) simp_all

lemma fdiv_Fin_not_NaN: "a \<noteq> 0 \<Longrightarrow> fdiv ar (Fin c) (Fin a) \<noteq> NaN"
  by simp

lemma fmul_one_left [simp]: "fmul ar (Fin 1) y = y"
  by (cases y) simp_all

lemma rnd_nonzero:
  assumes "1 / 2 ^ 10 \<le> \<bar>x\<bar>" and "\<bar>x\<bar> \<le> 2 ^ 24"
  shows "rnd ar x \<noteq> Fin 0"
proof
  assume z: "rnd ar x = Fin 0"
  from rnd_near[OF assms, of ar] z have "\<bar>0 - x\<bar> \<le> \<bar>x\<bar> / 2 ^ 20" by auto
  with assms(1) show False by (simp add: field_simps)
qed

lemma rnd_numeral [simp]:
  "(numeral k :: int) \<le> 2 ^ 24 \<Longrightarrow> rnd ar (numeral k) = Fin (numeral k)"
  "(numeral k :: int) \<le> 2 ^ 24 \<Longrightarrow> rnd ar (- numeral k) = Fin (- numeral k)"
  "(numeral k :: int) \<le> 2 ^ 24 \<Longrightarrow> rnd ar (numeral k / 2) = Fin (numeral k / 2)"
  "rnd ar 0 = Fin 0" "rnd ar 1 = Fin 1" "rnd ar (1 / 2) = Fin (1 / 2)"
  using rnd_dyadic[OF dyadic_int, of "numeral k" ar] rnd_dyadic[OF dyadic_int, of "- numeral k" ar]
    rnd_dyadic[OF dyadic_half, of "numeral k" ar] rnd_dyadic[OF dyadic_int, of 0 ar]
    rnd_dyadic[OF dyadic_int, of 1 ar] rnd_dyadic[OF dyadic_half, of 1 ar]
  by simp_all

lemma fgt_fle_trans: "fgt x b \<Longrightarrow> fle a b \<Longrightarrow> fgt x a"
  by (cases x; cases a; cases b) (auto simp: fgt_def)

lemma fgt_not_fge: "fgt a b \<Longrightarrow> \<not> fge b a"
  by (simp add: fgt_def fge_def)

section \<open>Structure of the calls\<close>

lemma length_divisors_mask [simp]:
  "length (divisors ar counts after (Some m)) = min (length counts) (length m)"
  by (simp add: divisors_def Let_def)

lemma length_divisors_all [simp]:
  "length (divisors ar counts after None) = length counts"
  by (simp add: divisors_def Let_def)

lemma nth_divisors_mask:
  "i < length counts \<Longrightarrow> i < length m \<Longrightarrow>
   divisors ar counts after (Some m) ! i =
     (if m ! i
      then (if fdiv ar (counts ! i) (resolve_after ar counts after (Some m)) = Fin 0 then Fin 1
            else fdiv ar (counts ! i) (resolve_after ar counts after (Some m)))
      else Fin 1)"
  by (simp add: divisors_def Let_def)

lemma nth_divisors_all:
  "i < length counts \<Longrightarrow>
   divisors ar counts after None ! i =
     (if fdiv ar (counts ! i) (resolve_after ar counts after None) = Fin 0 then Fin 1
      else fdiv ar (counts ! i) (resolve_after ar counts after None))"
  by (simp add: divisors_def Let_def)

lemma guard_nonzero:
  "fadd ar c (if c = Fin 0 then Fin 1 else Fin 0) \<noteq> Fin 0"
  "Fin 0 \<noteq> fadd ar c (if c = Fin 0 then Fin 1 else Fin 0)"
  by (cases "c = Fin 0"; simp; metis)+

lemma divisors_nonzero: "Fin 0 \<notin> set (divisors ar counts after cs)"
  by (cases cs) (auto simp: divisors_def Let_def guard_nonzero simp del: fadd_zero_right)

lemma length_row_scale [simp]:
  "length (rows_of (row_scale ar X ds)) = min (length (rows_of X)) (length ds)"
  by (cases X) (simp_all add: inplace_row_scale_def)

lemma select_Nil [simp]: "select [] xs = []" "select m [] = []"
  by (simp_all add: select_def)

lemma select_Cons [simp]:
  "select (b # m) (x # xs) = (if b then x # select m xs else select m xs)"
  by (simp add: select_def)

lemma select_map: "select m (map f xs) = map f (select m xs)"
  by (simp add: select_def zip_map1 filter_map comp_def case_prod_unfold)

lemma length_counts_per_cell [simp]: "length (counts_per_cell ar rs q) = length rs"
  by (simp add: counts_per_cell_def)

lemma nth_counts_per_cell:
  "i < length rs \<Longrightarrow> counts_per_cell ar rs q ! i = fsum ar (used_row ar rs q (rs ! i))"
  by (simp add: counts_per_cell_def)

lemma used_row_map: "used_row ar rs q (map f r) = map f (used_row ar rs q r)"
  by (simp add: used_row_def select_map)

lemma length_gene_subset [simp]: "length (gene_subset ar rs q) = ncols rs"
  by (simp add: gene_subset_def)

lemma nth_gene_subset:
  "j < ncols rs \<Longrightarrow>
   gene_subset ar rs q ! j = (\<not> (\<exists>r \<in> set rs. fgt (r ! j) (fmul ar (fsum ar r) (Fin q))))"
  by (simp add: gene_subset_def filter_empty_conv)

lemma norm_layers_X:
  "adata_X (fst (snd (norm_layers ar inplace after names data dat))) = adata_X data"
  by (induction names arbitrary: data dat) (auto split: option.splits prod.splits)

lemma norm_layers_dat_other:
  "k \<notin> set names \<Longrightarrow> snd (snd (norm_layers ar inplace after names data dat)) k = dat k"
  by (induction names arbitrary: data dat) (auto split: option.splits prod.splits)


lemma norm_layers_copy_data:
  "fst (snd (norm_layers ar False after names data dat)) = data"
  by (induction names arbitrary: data dat)
     (auto split: option.splits prod.splits simp: normalize_data_def Let_def update_triv)

lemma layer_after_valid:
  "valid_layer_norm layer_norm \<Longrightarrow>
   \<exists>a. layer_after ar layer_norm cell_sum_after counts cs = Inr a"
  by (auto simp: valid_layer_norm_def layer_after_def)

lemma normalized_X_scaled:
  assumes "0 \<le> quantile" and "quantile \<le> 1" and "valid_layer_norm layer_norm"
    and "inplace \<or> ''X'' \<notin> set (layer_names data layers)"
    and "normalized_X inplace
           (normalize_quantile ar data cell_sum_after quantile min_counts None inplace layers layer_norm)
         = Some Y"
  shows "Y = row_scale ar (adata_X data)
               (divisors ar (counts_per_cell ar (rows_of (adata_X data)) quantile)
                  (map_option Fin cell_sum_after)
                  (Some (map (\<lambda>c. fge c (Fin min_counts))
                     (counts_per_cell ar (rows_of (adata_X data)) quantile))))"
proof -
  let ?counts = "counts_per_cell ar (rows_of (adata_X data)) quantile"
  let ?cs = "map (\<lambda>c. fge c (Fin min_counts)) ?counts"
  let ?X' = "row_scale ar (adata_X data) (divisors ar ?counts (map_option Fin cell_sum_after) (Some ?cs))"
  from layer_after_valid[OF assms(3)] obtain a where
    a: "layer_after ar layer_norm cell_sum_after ?counts ?cs = Inr a" by blast
  show ?thesis
  proof (cases inplace)
    case True
    let ?d1 = "data\<lparr>adata_X := ?X'\<rparr>"
    obtain out d2 t2 where nl: "norm_layers ar True a (layer_names ?d1 layers) ?d1 Map.empty = (out, d2, t2)"
      by (metis prod_cases3)
    from norm_layers_X[of ar True a "layer_names ?d1 layers" ?d1 Map.empty] nl
    have "adata_X d2 = ?X'" by simp
    with assms(1,2,5) a True nl show ?thesis
      by (cases out) (simp_all add: normalized_X_def normalize_quantile_def Let_def normalize_data_def)
  next
    case False
    let ?r = "if issparse (adata_X data) then None else Some ?X'"
    have ln: "layer_names (data\<lparr>adata_X := adata_X data\<rparr>) layers = layer_names data layers"
      by (simp add: layer_names_def)
    obtain out d2 t2 where nl: "norm_layers ar False a (layer_names data layers) data [''X'' \<mapsto> ?r] = (out, d2, t2)"
      by (metis prod_cases3)
    from False assms(4) have "''X'' \<notin> set (layer_names data layers)" by simp
    from norm_layers_dat_other[OF this, of ar False a data "[''X'' \<mapsto> ?r]"] nl
    have t2: "t2 ''X'' = Some ?r" by simp
    from assms(1,2,5) a False nl t2 ln show ?thesis
      by (cases out) (simp_all add: normalized_X_def normalize_quantile_def Let_def normalize_data_def
          split: if_splits)
  qed
qed

lemma normalize_data_dense:
  "normalize_data ar (Dense rs) counts after cs True
     = (Dense rs, Some (row_scale ar (Dense rs) (divisors ar counts after cs)))"
  "normalize_data ar X counts after cs False = (row_scale ar X (divisors ar counts after cs), None)"
  by (simp_all add: normalize_data_def)

lemma normalize_data_copy_storage: "fst (normalize_data ar X counts after cs True) = X"
  by (simp add: normalize_data_def)

lemma copy_leaves_data:
  "snd (normalize_quantile ar data cell_sum_after quantile min_counts key_n_counts False layers
          layer_norm) = data"
proof -
  have "snd (case norm_layers ar False a ns data t of
               (Inl e, d2, t2) \<Rightarrow> (Inl e, d2)
             | (Inr u, d2, t2) \<Rightarrow> (f t2, d2)) = data"
    for a ns t and f :: "dat \<Rightarrow> exn + dat option"
    using norm_layers_copy_data[of ar a ns data t]
    by (cases "norm_layers ar False a ns data t") (auto split: sum.splits)
  then show ?thesis
    by (simp add: normalize_quantile_def Let_def normalize_data_def split: sum.splits)
qed

lemma bad_quantile_raises:
  "quantile < 0 \<or> quantile > 1 \<Longrightarrow>
   normalize_quantile ar data cell_sum_after quantile min_counts key_n_counts inplace layers
     layer_norm = (Inl ValueError, data)"
  by (simp add: normalize_quantile_def)

lemma bad_layer_norm_raises:
  "0 \<le> quantile \<Longrightarrow> quantile \<le> 1 \<Longrightarrow>
   layer_norm \<noteq> None \<Longrightarrow> layer_norm \<noteq> Some ''after'' \<Longrightarrow> layer_norm \<noteq> Some ''X'' \<Longrightarrow>
   normalize_quantile ar data cell_sum_after quantile min_counts None inplace layers layer_norm
     = (Inl ValueError, data)"
  by (cases layer_norm) (simp_all add: normalize_quantile_def layer_after_def Let_def)

lemma norm_layers_obs:
  "adata_obs (fst (snd (norm_layers ar inplace after names data dat))) = adata_obs data"
  by (induction names arbitrary: data dat) (auto split: option.splits prod.splits)

lemma obs_unchanged:
  "adata_obs (snd (normalize_quantile ar data cell_sum_after quantile min_counts key_n_counts
      inplace layers layer_norm)) = adata_obs data"
proof -
  have "adata_obs (snd (case norm_layers ar inplace a ns d t of
               (Inl e, d2, t2) \<Rightarrow> (Inl e, d2)
             | (Inr u, d2, t2) \<Rightarrow> (f t2, d2))) = adata_obs d"
    for a ns t d and f :: "dat \<Rightarrow> exn + dat option"
    using norm_layers_obs[of ar inplace a ns d t]
    by (cases "norm_layers ar inplace a ns d t") (auto split: sum.splits)
  then show ?thesis
    by (simp add: normalize_quantile_def Let_def split: sum.splits prod.splits)
qed

section \<open>normalize\_total and normalize\_quantile\<close>

text \<open>
  C9. For every data object and every value of the shared arguments,
  \<^verbatim>\<open>normalize_total\<close> returns or raises what \<^verbatim>\<open>normalize_quantile\<close> does with
  \<open>quantile = 1\<close>, and leaves the data object in the same state; two calls that
  differ only in \<^verbatim>\<open>counts_per_cell\<close> agree.
\<close>

theorem normalize_total_quantile_one:
  "normalize_total ar data cell_sum_after cpc key_n_counts inplace layers layer_norm min_counts
     = normalize_quantile ar data cell_sum_after 1 min_counts key_n_counts inplace layers
         layer_norm
   \<and> normalize_total ar data cell_sum_after cpc key_n_counts inplace layers layer_norm min_counts
     = normalize_total ar data cell_sum_after cpc' key_n_counts inplace layers layer_norm
         min_counts"
  by (simp add: normalize_total_def)

section \<open>The per-row metadata store\<close>

text \<open>
  C4. With \<^verbatim>\<open>key_n_counts\<close> given, on the matrix \<^verbatim>\<open>[[1, 0], [3, 0], [5, 6]]\<close>,
  the call raises \<^verbatim>\<open>NameError\<close>: nothing is stored in the per-row metadata, and
  the matrix is not normalized. The default call of \<^verbatim>\<open>normalize_total\<close>, where
  \<^verbatim>\<open>key_n_counts\<close> is \<^verbatim>\<open>None\<close>, stores nothing either.
\<close>

theorem key_n_counts_raises:
  "normalize_quantile ar doc_data None 1 1 (Some ''n_counts'') True (Names []) None
     = (Inl NameError, doc_data)
   \<and> adata_obs doc_data = []
   \<and> adata_obs (snd (normalize_total ar doc_data None None None True (Names []) None 1)) = []"
  by (simp add: normalize_total_def obs_unchanged) (simp add: normalize_quantile_def doc_data_def)

text \<open>
  C8. With \<^verbatim>\<open>key_n_counts\<close> given and a \<^verbatim>\<open>layer_norm\<close> that is none of
  \<^verbatim>\<open>'after'\<close>, \<^verbatim>\<open>'X'\<close>, \<^verbatim>\<open>None\<close>, the call raises \<^verbatim>\<open>NameError\<close>, not the
  \<^verbatim>\<open>ValueError\<close> of the check of \<^verbatim>\<open>layer_norm\<close>, which comes later.
\<close>

theorem bad_layer_norm_with_key_raises_name_error:
  "normalize_quantile ar doc_data None 1 1 (Some ''n_counts'') True (Names []) (Some ''total'')
     = (Inl NameError, doc_data)"
  by (simp add: normalize_quantile_def doc_data_def)

section \<open>Copies\<close>

text \<open>
  C3. On a sparse matrix, the row-scaling primitive called with \<open>copy = True\<close>
  leaves the matrix as it was and returns \<^verbatim>\<open>None\<close>, not the scaled copy
  (called with \<open>copy = False\<close> it scales the storage, each stored entry times
  the rounded inverse of the rounded quotient of count and median, and returns
  \<^verbatim>\<open>None\<close>);
  so \<^verbatim>\<open>normalize_quantile\<close> with \<open>inplace = False\<close> returns a mapping that
  sends \<^verbatim>\<open>'X'\<close> to \<^verbatim>\<open>None\<close>.
\<close>

theorem sparse_copy_returns_none:
  "normalize_data ar doc_sparse [Fin 1, Fin 3, Fin 11] None None True = (doc_sparse, None)
   \<and> normalize_data ar doc_sparse [Fin 1, Fin 3, Fin 11] None None False
       = (Sparse [[Some (fdiv ar (Fin 1) (rnd ar (1/3))), None], [Some (Fin 3), None],
                  [Some (fmul ar (Fin 5) (fdiv ar (Fin 1) (rnd ar (11/3)))),
                   Some (fmul ar (Fin 6) (fdiv ar (Fin 1) (rnd ar (11/3))))]], None)
   \<and> (\<exists>d. normalize_quantile ar \<lparr>adata_X = doc_sparse, adata_layers = [], adata_obs = []\<rparr>
              None 1 1 None False (Names []) None
            = (Inr (Some d), \<lparr>adata_X = doc_sparse, adata_layers = [], adata_obs = []\<rparr>)
          \<and> d ''X'' = Some None)"
proof -
  have s: "sort_fl [Fin 1, Fin 3, Fin 11] = [Fin 1, Fin 3, Fin 11]"
    by (simp add: sort_fl_def)
  have n: "rnd ar (1/3) \<noteq> Fin 0" "rnd ar (11/3) \<noteq> Fin 0"
    by (rule rnd_nonzero; simp)+
  show ?thesis
    using n
    by (simp add: normalize_data_def normalize_quantile_def layer_after_def layer_names_def
        doc_sparse_def inplace_row_scale_def divisors_def resolve_after_def median_def s Let_def)
qed

section \<open>The quantile filter\<close>

text \<open>
  Lowering the quantile lowers the threshold of a row whose total is not
  negative, since rounding is monotone; so an entry above the higher threshold
  is above the lower one.
\<close>

lemma fmul_quantile_mono:
  assumes "0 \<le> t" and "q1 \<le> q2" and "q2 < 1"
  shows "fle (fmul ar (Fin t) (Fin q1)) (fmul ar (Fin t) (Fin q2))"
proof (cases "t = 1")
  case True
  with assms show ?thesis by simp
next
  case False
  from assms(1,2) have "t * q1 \<le> t * q2" by (simp add: mult_left_mono)
  with False assms(2,3) show ?thesis by (simp add: rnd_mono)
qed

lemma fgt_threshold_mono:
  assumes "\<not> fgt (Fin 0) s" and "q1 \<le> q2" and "q2 < 1"
    and "fgt x (fmul ar s (Fin q2))"
  shows "fgt x (fmul ar s (Fin q1))"
proof (cases s)
  case (Fin t)
  with assms(1) have "0 \<le> t" by (simp add: fgt_def)
  from fgt_fle_trans[OF assms(4)[unfolded Fin] fmul_quantile_mono[OF this assms(2,3)]] Fin
  show ?thesis by simp
next
  case PInf
  with assms(2,4) show ?thesis by (cases x) (auto simp: fgt_def split: if_splits)
next
  case NInf
  with assms(1) show ?thesis by (simp add: fgt_def)
next
  case NaN
  with assms(4) show ?thesis by (simp add: fgt_def)
qed

lemma gene_subset_mono:
  assumes "\<forall>r \<in> set rs. \<not> fgt (Fin 0) (fsum ar r)" and "q1 \<le> q2" and "q2 < 1"
    and "j < ncols rs" and "gene_subset ar rs q1 ! j"
  shows "gene_subset ar rs q2 ! j"
  using assms by (auto simp: nth_gene_subset dest: fgt_threshold_mono)

lemma quantile_rows_sums:
  "map (fsum ar) quantile_rows = [Fin 2, Fin 4, Fin 12]"
  using fsum_ints[of "[1, 0, 1]" ar] fsum_ints[of "[3, 0, 1]" ar] fsum_ints[of "[5, 6, 1]" ar]
  by (simp add: quantile_rows_def)

text \<open>
  C10, as the code has it. In a matrix where no row total is negative, for
  \<open>q1 \<le> q2\<close> in \<open>[0, 1]\<close> the columns that enter the row sums under \<open>q1\<close>
  are among those that enter them under \<open>q2\<close>.
\<close>

theorem quantile_filter_monotone:
  assumes "\<forall>r \<in> set rs. \<not> fgt (Fin 0) (fsum ar r)" and "0 \<le> q1" and "q1 \<le> q2" and "q2 \<le> 1"
  shows "included_columns ar rs q1 \<subseteq> included_columns ar rs q2"
  using assms by (auto simp: included_columns_def dest: gene_subset_mono)

theorem quantile_filter_monotone_witness:
  "\<forall>ar. map (fsum ar) quantile_rows = [Fin 2, Fin 4, Fin 12] \<and> (0::real) \<le> 1/2
     \<and> (1/2::real) \<le> 7/10 \<and> (7/10::real) \<le> 1
     \<and> included_columns ar quantile_rows (1/2) \<subseteq> included_columns ar quantile_rows (7/10)"
proof
  fix ar
  have h: "\<forall>r \<in> set quantile_rows. \<not> fgt (Fin 0) (fsum ar r)"
    using quantile_rows_sums[of ar] by (simp add: quantile_rows_def fgt_def)
  from quantile_filter_monotone[OF h, of "1/2" "7/10"] quantile_rows_sums[of ar]
  show "map (fsum ar) quantile_rows = [Fin 2, Fin 4, Fin 12] \<and> (0::real) \<le> 1/2
     \<and> (1/2::real) \<le> 7/10 \<and> (7/10::real) \<le> 1
     \<and> included_columns ar quantile_rows (1/2) \<subseteq> included_columns ar quantile_rows (7/10)"
    by simp
qed

lemma negative_rows_sum: "fsum ar [Fin (-1), Fin (-3)] = Fin (-4)"
  using fsum_ints[of "[-1, -3]" ar] by simp

lemma rnd_below_minus_three: "\<exists>y. rnd ar (- (18/5)) = Fin y \<and> y < -3"
proof -
  from rnd_near[of "- (18/5)" ar] obtain y where
    y: "rnd ar (- (18/5)) = Fin y" "\<bar>y - (- (18/5))\<bar> \<le> \<bar>- (18/5)\<bar> / 2 ^ 20" by auto
  have "\<bar>- (18/5)\<bar> / 2 ^ 20 \<le> (1/1000 :: real)" by simp
  with y(2) have "\<bar>y - (- (18/5))\<bar> \<le> 1/1000" by linarith
  then have "y < -3" by arith
  with y(1) show ?thesis by blast
qed

text \<open>
  C10, as it is stated, fails on the row \<^verbatim>\<open>[-1, -3]\<close>, whose total is \<open>-4\<close>:
  the second column enters the row sum under quantile 0.5 (threshold \<open>-2\<close>) and
  not under quantile 0.9 (threshold \<open>-3.6\<close>, rounded).
\<close>

theorem quantile_filter_not_monotone:
  "\<forall>ar. (1/2::real) \<le> 9/10 \<and> 1 \<in> included_columns ar negative_rows (1/2)
     \<and> 1 \<notin> included_columns ar negative_rows (9/10)"
proof
  fix ar
  from rnd_below_minus_three[of ar] obtain y where y: "rnd ar (- (18/5)) = Fin y" "y < -3"
    by blast
  then show "(1/2::real) \<le> 9/10 \<and> 1 \<in> included_columns ar negative_rows (1/2)
     \<and> 1 \<notin> included_columns ar negative_rows (9/10)"
    by (simp add: included_columns_def negative_rows_def ncols_def gene_subset_def
        negative_rows_sum fgt_def upt_rec)
qed

section \<open>Layers and rows\<close>



lemma nth_row_scale_one:
  assumes "i < length (rows_of X)" and "i < length ds" and "ds ! i = Fin 1"
  shows "rows_of (row_scale ar X ds) ! i = rows_of X ! i"
proof (cases X)
  case (Dense rs)
  with assms show ?thesis by simp
next
  case (Sparse rs)
  have "map_option (\<lambda>x. fmul ar x (Fin 1)) e = e" for e
    by (cases e) simp_all
  with Sparse assms show ?thesis
    by (simp add: inplace_row_scale_def)
qed

lemma doc_rows_sums: "map (fsum ar) doc_rows = [Fin 1, Fin 3, Fin 11]"
  using fsum_ints[of "[1, 0]" ar] fsum_ints[of "[3, 0]" ar] fsum_ints[of "[5, 6]" ar]
  by (simp add: doc_rows_def)

lemma spliced_sums:
  "fsum ar [Fin 2, Fin 0] = Fin 2" "fsum ar [Fin 4, Fin 0] = Fin 4"
  "fsum ar [Fin 10, Fin 0] = Fin 10"
  using fsum_ints[of "[2, 0]" ar] fsum_ints[of "[4, 0]" ar] fsum_ints[of "[10, 0]" ar]
  by simp_all

lemma spliced_divisors:
  "divisors ar [Fin 2, Fin 4, Fin 10] None None = [Fin (1/2), Fin 1, Fin (5/2)]"
proof -
  have s: "sort_fl [Fin 2, Fin 4, Fin 10] = [Fin 2, Fin 4, Fin 10]"
    by (simp add: sort_fl_def)
  show ?thesis
    by (simp add: divisors_def resolve_after_def median_def s Let_def)
qed

subsection \<open>Rows below the minimum count\<close>

text \<open>
  C6, as the code has it. Every row of the primary matrix whose row sum (over
  the columns that enter it) is strictly below \<^verbatim>\<open>min_counts\<close> has, in the
  normalized primary matrix, the values it had.
\<close>

theorem below_min_counts_unchanged:
  assumes "0 \<le> quantile" and "quantile \<le> 1" and "valid_layer_norm layer_norm"
    and "inplace \<or> ''X'' \<notin> set (layer_names data layers)"
    and "normalized_X inplace
           (normalize_quantile ar data cell_sum_after quantile min_counts None inplace layers
              layer_norm)
         = Some Y"
    and "i < length (rows_of (adata_X data))"
    and "fgt (Fin min_counts) (counts_per_cell ar (rows_of (adata_X data)) quantile ! i)"
  shows "rows_of Y ! i = rows_of (adata_X data) ! i"
proof -
  let ?counts = "counts_per_cell ar (rows_of (adata_X data)) quantile"
  let ?cs = "map (\<lambda>c. fge c (Fin min_counts)) ?counts"
  let ?ds = "divisors ar ?counts (map_option Fin cell_sum_after) (Some ?cs)"
  from normalized_X_scaled[OF assms(1-5)] have Y: "Y = row_scale ar (adata_X data) ?ds" .
  from assms(6,7) have "?ds ! i = Fin 1"
    by (simp add: nth_divisors_mask fgt_not_fge)
  with assms(6) Y show ?thesis by (simp add: nth_row_scale_one)
qed

theorem below_min_counts_unchanged_witness:
  "\<forall>ar. fgt (Fin 3) (counts_per_cell ar (rows_of (adata_X layer_data)) 1 ! 0)
     \<and> rows_of (adata_X (snd (normalize_quantile ar layer_data None 1 3 None True
          (Names [''spliced'']) None))) ! 0 = [Fin 1, Fin 0]"
proof
  fix ar
  let ?res = "normalize_quantile ar layer_data None 1 3 None True (Names [''spliced'']) None"
  have n: "normalized_X True ?res = Some (adata_X (snd ?res))"
    by (simp add: normalized_X_def)
  have c: "fgt (Fin 3) (counts_per_cell ar (rows_of (adata_X layer_data)) 1 ! 0)"
    using doc_rows_sums[of ar]
    by (simp add: layer_data_def counts_per_cell_def used_row_def fgt_def)
  have l: "0 < length (rows_of (adata_X layer_data))"
    by (simp add: layer_data_def doc_rows_def)
  have v: "valid_layer_norm None" by (simp add: valid_layer_norm_def)
  from below_min_counts_unchanged[OF _ _ v _ n l c] c
  show "fgt (Fin 3) (counts_per_cell ar (rows_of (adata_X layer_data)) 1 ! 0)
     \<and> rows_of (adata_X (snd ?res)) ! 0 = [Fin 1, Fin 0]"
    by (simp add: layer_data_def doc_rows_def)
qed

text \<open>
  C6, as it is stated, fails for a layer: the layers are scaled with no mask.
  With \<^verbatim>\<open>min_counts = 3\<close> the first row of the layer, of sum 2, is scaled to
  the layer's median 4.
\<close>

theorem layer_row_below_min_counts_scaled:
  "\<forall>ar. fgt (Fin 3) (fsum ar [Fin 2, Fin 0])
     \<and> map_of (adata_layers layer_data) ''spliced''
        = Some (Dense [[Fin 2, Fin 0], [Fin 4, Fin 0], [Fin 10, Fin 0]])
     \<and> normalized_layer True
          (normalize_quantile ar layer_data None 1 3 None True (Names [''spliced'']) None)
          ''spliced''
        = Some (Dense [[Fin 4, Fin 0], [Fin 4, Fin 0], [Fin 4, Fin 0]])"
  by (simp add: normalized_layer_def normalize_quantile_def layer_after_def layer_names_def
      layer_data_def normalize_data_def Let_def spliced_sums spliced_divisors fgt_def
      AList.update.simps)

lemma nth_divisors:
  "i < length (divisors ar counts after cs) \<Longrightarrow>
   divisors ar counts after cs ! i
     = (if quotient ar counts after cs i = Fin 0 then Fin 1 else quotient ar counts after cs i)"
  by (cases cs) (simp_all add: quotient_def nth_divisors_all nth_divisors_mask)

lemma zero_row_scaled:
  assumes "i < length (rows_of X)" and "i < length ds" and "ds ! i \<noteq> NaN" and "ds ! i \<noteq> Fin 0"
    and "issparse X \<longrightarrow> (\<exists>s. fdiv ar (Fin 1) (ds ! i) = Fin s)"
    and "list_all (\<lambda>x. x = Fin 0) (rows_of X ! i)"
  shows "list_all (\<lambda>x. x = Fin 0) (rows_of (row_scale ar X ds) ! i)"
proof (cases X)
  case (Dense rs)
  with assms show ?thesis
    by (auto simp: list_all_iff fdiv_zero_left)
next
  case (Sparse rs)
  with assms(5) obtain s where s: "fdiv ar (Fin 1) (ds ! i) = Fin s" by auto
  have "entry e = Fin 0 \<Longrightarrow> entry (map_option (\<lambda>x. fmul ar x (Fin s)) e) = Fin 0" for e
    by (cases e) (simp_all add: entry_def)
  with Sparse assms(1,2,6) s show ?thesis
    by (simp add: inplace_row_scale_def list_all_iff)
qed

lemma zero_rows_sums: "fsum ar [Fin 0, Fin 0] = Fin 0" "fsum ar [Fin 1, Fin 1] = Fin 2"
  using fsum_ints[of "[0, 0]" ar] fsum_ints[of "[1, 1]" ar] by simp_all

subsection \<open>Zero divisors\<close>

text \<open>
  C7, as the code has it. The divisor of a row is its count over the target
  total (1 outside the mask), and when that is exactly zero it is replaced by 1,
  before the matrix is divided; so no row is divided by zero. A row whose
  values are all zero stays all zero, in the matrix scaled in place and in the
  copy returned, when its divisor is not NaN (and, for a sparse matrix, the
  inverse of the divisor is finite); the divisor is not NaN when the row's count
  is finite and the target total is a number other than zero.
\<close>

theorem zero_guard_scaling:
  "(i < length (divisors ar counts after cs)
      \<longrightarrow> divisors ar counts after cs ! i
            = (if quotient ar counts after cs i = Fin 0 then Fin 1
               else quotient ar counts after cs i))
   \<and> Fin 0 \<notin> set (divisors ar counts after cs)
   \<and> (i < length (rows_of X) \<and> i < length (divisors ar counts after cs)
        \<and> divisors ar counts after cs ! i \<noteq> NaN
        \<and> (issparse X \<longrightarrow> (\<exists>s. fdiv ar (Fin 1) (divisors ar counts after cs ! i) = Fin s))
        \<and> list_all (\<lambda>x. x = Fin 0) (rows_of X ! i)
      \<longrightarrow> list_all (\<lambda>x. x = Fin 0)
            (rows_of (fst (normalize_data ar X counts after cs False)) ! i)
          \<and> (\<forall>Y. snd (normalize_data ar X counts after cs True) = Some Y
                \<longrightarrow> list_all (\<lambda>x. x = Fin 0) (rows_of Y ! i)))
   \<and> (i < length (divisors ar counts after cs) \<and> counts ! i = Fin c
        \<and> resolve_after ar counts after cs = Fin a \<and> a \<noteq> 0
      \<longrightarrow> divisors ar counts after cs ! i \<noteq> NaN)"
proof (intro conjI impI)
  assume "i < length (divisors ar counts after cs)"
  then show "divisors ar counts after cs ! i
            = (if quotient ar counts after cs i = Fin 0 then Fin 1
               else quotient ar counts after cs i)"
    by (rule nth_divisors)
next
  show "Fin 0 \<notin> set (divisors ar counts after cs)" by (rule divisors_nonzero)
next
  let ?ds = "divisors ar counts after cs"
  assume h: "i < length (rows_of X) \<and> i < length ?ds \<and> ?ds ! i \<noteq> NaN
        \<and> (issparse X \<longrightarrow> (\<exists>s. fdiv ar (Fin 1) (?ds ! i) = Fin s))
        \<and> list_all (\<lambda>x. x = Fin 0) (rows_of X ! i)"
  then have "?ds ! i \<in> set ?ds" by simp
  with divisors_nonzero[of ar counts after cs] have nz: "?ds ! i \<noteq> Fin 0" by metis
  from h nz have z: "list_all (\<lambda>x. x = Fin 0) (rows_of (row_scale ar X ?ds) ! i)"
    by (intro zero_row_scaled) simp_all
  from z show "list_all (\<lambda>x. x = Fin 0)
      (rows_of (fst (normalize_data ar X counts after cs False)) ! i)"
    by (simp add: normalize_data_def Let_def)
  from z show "\<forall>Y. snd (normalize_data ar X counts after cs True) = Some Y
                \<longrightarrow> list_all (\<lambda>x. x = Fin 0) (rows_of Y ! i)"
    by (auto simp: normalize_data_def Let_def split: if_splits)
next
  assume h: "i < length (divisors ar counts after cs) \<and> counts ! i = Fin c
        \<and> resolve_after ar counts after cs = Fin a \<and> a \<noteq> 0"
  then have "quotient ar counts after cs i \<noteq> NaN"
    by (cases cs) (simp_all add: quotient_def)
  with h show "divisors ar counts after cs ! i \<noteq> NaN"
    by (simp add: nth_divisors)
qed

theorem zero_guard_scaling_witness:
  "\<forall>ar. quotient ar [Fin 0, Fin 0, Fin 2] (Some (Fin 1)) None 0 = Fin 0
     \<and> divisors ar [Fin 0, Fin 0, Fin 2] (Some (Fin 1)) None ! 0 = Fin 1
     \<and> list_all (\<lambda>x. x = Fin 0)
          (rows_of (fst (normalize_data ar (Dense zero_rows) [Fin 0, Fin 0, Fin 2] (Some (Fin 1))
             None False)) ! 0)"
proof
  fix ar
  have q: "quotient ar [Fin 0, Fin 0, Fin 2] (Some (Fin 1)) None 0 = Fin 0"
    by (simp add: quotient_def resolve_after_def)
  have n: "length (divisors ar [Fin 0, Fin 0, Fin 2] (Some (Fin 1)) None) = 3"
    by simp
  have z: "list_all (\<lambda>x. x = Fin 0) (rows_of (Dense zero_rows) ! 0)"
    by (simp add: zero_rows_def)
  have l: "0 < length (rows_of (Dense zero_rows))"
    by (simp add: zero_rows_def)
  from zero_guard_scaling[of 0 ar "[Fin 0, Fin 0, Fin 2]" "Some (Fin 1)" None "Dense zero_rows" 0 1]
    q n z l
  show "quotient ar [Fin 0, Fin 0, Fin 2] (Some (Fin 1)) None 0 = Fin 0
     \<and> divisors ar [Fin 0, Fin 0, Fin 2] (Some (Fin 1)) None ! 0 = Fin 1
     \<and> list_all (\<lambda>x. x = Fin 0)
          (rows_of (fst (normalize_data ar (Dense zero_rows) [Fin 0, Fin 0, Fin 2] (Some (Fin 1))
             None False)) ! 0)"
    by simp
qed

text \<open>
  C7, as it is stated, fails on \<^verbatim>\<open>[[0,0],[0,0],[1,1]]\<close> scaled with no target
  given: the median of the counts \<^verbatim>\<open>[0,0,2]\<close> is 0, \<^verbatim>\<open>counts /= after\<close>
  leaves \<^verbatim>\<open>0/0 = nan\<close> for the empty rows, which is not zero and so is not
  replaced, and the empty rows become NaN.
\<close>

theorem zero_rows_become_nan:
  "\<forall>ar. list_all (\<lambda>x. x = Fin 0) (zero_rows ! 0)
     \<and> map (fsum ar) zero_rows = [Fin 0, Fin 0, Fin 2]
     \<and> normalize_data ar (Dense zero_rows) [Fin 0, Fin 0, Fin 2] None None False
         = (Dense [[NaN, NaN], [NaN, NaN], [Fin 0, Fin 0]], None)"
proof -
  have s: "sort_fl [Fin 0, Fin 0, Fin 2] = [Fin 0, Fin 0, Fin 2]"
    by (simp add: sort_fl_def)
  show ?thesis
    by (simp add: zero_rows_def zero_rows_sums normalize_data_def divisors_def resolve_after_def
        median_def s Let_def)
qed



subsection \<open>The target total of a layer\<close>




section \<open>The columns that enter the row sums\<close>

lemma rnd_bounds:
  assumes "1 / 2 ^ 10 \<le> x" and "x \<le> 2 ^ 24"
  shows "\<exists>y. rnd ar x = Fin y \<and> x * (1 - 1 / 2 ^ 20) \<le> y \<and> y \<le> x * (1 + 1 / 2 ^ 20)"
proof -
  from assms have p: "0 < x" by (simp add: less_le_trans[of 0 "1 / 2 ^ 10"])
  with rnd_near[of x ar] assms obtain y where
    y: "rnd ar x = Fin y" "\<bar>y - x\<bar> \<le> x / 2 ^ 20" by auto
  from y(2) have "x - x / 2 ^ 20 \<le> y" "y \<le> x + x / 2 ^ 20" by linarith+
  then have "x * (1 - 1 / 2 ^ 20) \<le> y \<and> y \<le> x * (1 + 1 / 2 ^ 20)"
    by (simp add: algebra_simps)
  with y(1) show ?thesis by blast
qed

lemma quantile_rows_sum:
  "fsum ar [Fin 1, Fin 0, Fin 1] = Fin 2" "fsum ar [Fin 3, Fin 0, Fin 1] = Fin 4"
  "fsum ar [Fin 5, Fin 6, Fin 1] = Fin 12" "fsum ar [Fin 0, Fin 1] = Fin 1"
  "fsum ar [Fin 6, Fin 1] = Fin 7"
  using fsum_ints[of "[1, 0, 1]" ar] fsum_ints[of "[3, 0, 1]" ar] fsum_ints[of "[5, 6, 1]" ar]
    fsum_ints[of "[0, 1]" ar] fsum_ints[of "[6, 1]" ar]
  by simp_all

lemma quantile_rows_subset:
  assumes "699 / 1000 \<le> q" and "q \<le> 701 / 1000"
  shows "gene_subset ar quantile_rows q = [False, True, True]"
proof -
  from assms rnd_bounds[of "2 * q" ar] obtain a where
    a: "rnd ar (2 * q) = Fin a" "2 * q * (1 - 1 / 2 ^ 20) \<le> a" "a \<le> 2 * q * (1 + 1 / 2 ^ 20)"
    by auto
  from assms rnd_bounds[of "4 * q" ar] obtain b where
    b: "rnd ar (4 * q) = Fin b" "4 * q * (1 - 1 / 2 ^ 20) \<le> b" "b \<le> 4 * q * (1 + 1 / 2 ^ 20)"
    by auto
  from assms rnd_bounds[of "12 * q" ar] obtain c where
    c: "rnd ar (12 * q) = Fin c" "12 * q * (1 - 1 / 2 ^ 20) \<le> c" "c \<le> 12 * q * (1 + 1 / 2 ^ 20)"
    by auto
  from assms a(2) have a': "1 \<le> a" by (simp add: field_simps; linarith?)
  from assms b(2) have b1: "1 \<le> b" by (simp add: field_simps; linarith?)
  from assms b(3) have b2: "b < 3" by (simp add: field_simps; linarith?)
  note b' = b1 b2
  from assms c(2) have c': "6 \<le> c" by (simp add: field_simps; linarith?)
  from assms have q1: "q \<noteq> 1" by simp
  show ?thesis
    using a(1) b(1) c(1) a' b' c' q1
    by (simp add: gene_subset_def quantile_rows_def ncols_def quantile_rows_sum fgt_def upt_rec)
qed


lemma sort_example: "sort_fl [Fin 1, Fin 1, Fin 7] = [Fin 1, Fin 1, Fin 7]"
  by (simp add: sort_fl_def)

lemma quantile_example:
  assumes "699 / 1000 \<le> q" and "q \<le> 701 / 1000"
  shows "normalize_quantile ar quantile_data None q 1 None True (Names []) None
     = (Inr None, quantile_data\<lparr>adata_X := Dense [[Fin 1, Fin 0, Fin 1], [Fin 3, Fin 0, Fin 1],
          [rnd ar (5/7), rnd ar (6/7), rnd ar (1/7)]]\<rparr>)"
proof -
  from assms have q1: "q < 1" by simp
  have c: "counts_per_cell ar quantile_rows q = [Fin 1, Fin 1, Fin 7]"
    using q1 by (simp add: counts_per_cell_def used_row_def quantile_rows_subset[OF assms])
      (simp add: quantile_rows_def quantile_rows_sum)
  have d: "divisors ar [Fin 1, Fin 1, Fin 7] None (Some [True, True, True])
             = [Fin 1, Fin 1, Fin 7]"
    by (simp add: divisors_def resolve_after_def median_def sort_example Let_def)
  from assms show ?thesis
    by (simp add: normalize_quantile_def quantile_data_def c d layer_after_def Let_def
        layer_names_def fge_def normalize_data_def)
      (simp add: quantile_rows_def)
qed

lemma rnd_close:
  assumes "1 / 2 ^ 10 \<le> x" and "x \<le> 1"
  shows "\<exists>y. rnd ar x = Fin y \<and> \<bar>y - x\<bar> \<le> 1 / 10 ^ 6"
proof -
  from assms rnd_near[of x ar] obtain y where
    y: "rnd ar x = Fin y" "\<bar>y - x\<bar> \<le> \<bar>x\<bar> / 2 ^ 20" by auto
  from assms have "\<bar>x\<bar> / 2 ^ 20 \<le> 1 / 10 ^ 6" by (simp add: field_simps; linarith?)
  with y show ?thesis by (intro exI[of _ y]) linarith
qed

text \<open>
  C2. In a call that produces a normalized primary matrix: with
  \<open>quantile < 1\<close> it is the matrix scaled with the divisors of the row sums
  over the columns \<^verbatim>\<open>gene_subset\<close> marks, and a column is unmarked exactly when
  some row has its entry in that column above the row's full total times the
  quantile (the product as the array format rounds it); with \<open>quantile = 1\<close>
  the row sums run over all columns. On \<^verbatim>\<open>[[1,0,1],[3,0,1],[5,6,1]]\<close> with
  quantile 0.7 (any float within 0.001 of it) the call leaves
  \<^verbatim>\<open>[[1,0,1],[3,0,1],[x,y,z]]\<close> with \<open>x\<close>, \<open>y\<close>, \<open>z\<close> within \<open>10^-6\<close> of
  \<open>5/7\<close>, \<open>6/7\<close>, \<open>1/7\<close>.
\<close>

theorem column_filter:
  assumes "0 \<le> quantile" and "quantile \<le> 1" and "valid_layer_norm layer_norm"
    and "inplace \<or> ''X'' \<notin> set (layer_names data layers)"
    and "normalized_X inplace
           (normalize_quantile ar data cell_sum_after quantile min_counts None inplace layers
              layer_norm)
         = Some Y"
  shows "(quantile < 1 \<longrightarrow>
            (\<exists>counts. counts = map (\<lambda>r. fsum ar (select (gene_subset ar (rows_of (adata_X data))
                                    quantile) r)) (rows_of (adata_X data))
               \<and> Y = row_scale ar (adata_X data)
                     (divisors ar counts (map_option Fin cell_sum_after)
                        (Some (map (\<lambda>c. fge c (Fin min_counts)) counts))))
            \<and> length (gene_subset ar (rows_of (adata_X data)) quantile)
                = ncols (rows_of (adata_X data))
            \<and> (\<forall>j < ncols (rows_of (adata_X data)).
                  (\<not> gene_subset ar (rows_of (adata_X data)) quantile ! j)
                  = (\<exists>r \<in> set (rows_of (adata_X data)).
                       fgt (r ! j) (fmul ar (fsum ar r) (Fin quantile)))))
         \<and> (quantile = 1 \<longrightarrow>
              (\<exists>counts. counts = map (fsum ar) (rows_of (adata_X data))
                 \<and> Y = row_scale ar (adata_X data)
                       (divisors ar counts (map_option Fin cell_sum_after)
                          (Some (map (\<lambda>c. fge c (Fin min_counts)) counts)))))
         \<and> (\<forall>q. 699 / 1000 \<le> q \<and> q \<le> 701 / 1000 \<longrightarrow>
              (\<exists>x y z. normalize_quantile ar quantile_data None q 1 None True (Names []) None
                   = (Inr None, quantile_data\<lparr>adata_X := Dense [[Fin 1, Fin 0, Fin 1],
                        [Fin 3, Fin 0, Fin 1], [Fin x, Fin y, Fin z]]\<rparr>)
                 \<and> \<bar>x - 5/7\<bar> \<le> 1 / 10 ^ 6 \<and> \<bar>y - 6/7\<bar> \<le> 1 / 10 ^ 6
                 \<and> \<bar>z - 1/7\<bar> \<le> 1 / 10 ^ 6))"
proof -
  note Y = normalized_X_scaled[OF assms(1-5)]
  let ?rows = "rows_of (adata_X data)"
  have one: "\<exists>counts. counts = map (\<lambda>r. fsum ar (select (gene_subset ar ?rows quantile) r)) ?rows
               \<and> Y = row_scale ar (adata_X data)
                     (divisors ar counts (map_option Fin cell_sum_after)
                        (Some (map (\<lambda>c. fge c (Fin min_counts)) counts)))"
    if "quantile < 1"
    using Y that by (simp add: counts_per_cell_def used_row_def)
  have two: "\<exists>counts. counts = map (fsum ar) ?rows
                 \<and> Y = row_scale ar (adata_X data)
                       (divisors ar counts (map_option Fin cell_sum_after)
                          (Some (map (\<lambda>c. fge c (Fin min_counts)) counts)))"
    if "quantile = 1"
    using Y that by (simp add: counts_per_cell_def used_row_def)
  have three: "\<forall>j < ncols ?rows. (\<not> gene_subset ar ?rows quantile ! j)
                  = (\<exists>r \<in> set ?rows. fgt (r ! j) (fmul ar (fsum ar r) (Fin quantile)))"
    by (simp add: nth_gene_subset)
  have four: "\<exists>x y z. normalize_quantile ar quantile_data None q 1 None True (Names []) None
                   = (Inr None, quantile_data\<lparr>adata_X := Dense [[Fin 1, Fin 0, Fin 1],
                        [Fin 3, Fin 0, Fin 1], [Fin x, Fin y, Fin z]]\<rparr>)
                 \<and> \<bar>x - 5/7\<bar> \<le> 1 / 10 ^ 6 \<and> \<bar>y - 6/7\<bar> \<le> 1 / 10 ^ 6
                 \<and> \<bar>z - 1/7\<bar> \<le> 1 / 10 ^ 6"
    if q: "699 / 1000 \<le> q \<and> q \<le> 701 / 1000" for q
  proof -
    from rnd_close[of "5/7" ar] obtain x where x: "rnd ar (5/7) = Fin x" "\<bar>x - 5/7\<bar> \<le> 1 / 10 ^ 6"
      by auto
    from rnd_close[of "6/7" ar] obtain y where y: "rnd ar (6/7) = Fin y" "\<bar>y - 6/7\<bar> \<le> 1 / 10 ^ 6"
      by auto
    from rnd_close[of "1/7" ar] obtain z where z: "rnd ar (1/7) = Fin z" "\<bar>z - 1/7\<bar> \<le> 1 / 10 ^ 6"
      by auto
    from q quantile_example[of q ar] x y z show ?thesis by auto
  qed
  from one two three four show ?thesis by simp
qed

theorem column_filter_witness:
  "\<forall>ar. (7/10::real) < 1 \<and> \<not> gene_subset ar quantile_rows (7/10) ! 0
     \<and> (\<exists>r \<in> set quantile_rows. fgt (r ! 0) (fmul ar (fsum ar r) (Fin (7/10))))
     \<and> (\<exists>x y z. normalize_quantile ar quantile_data None (7/10) 1 None True (Names []) None
            = (Inr None, quantile_data\<lparr>adata_X := Dense [[Fin 1, Fin 0, Fin 1],
                 [Fin 3, Fin 0, Fin 1], [Fin x, Fin y, Fin z]]\<rparr>)
          \<and> \<bar>x - 5/7\<bar> \<le> 1 / 10 ^ 6 \<and> \<bar>y - 6/7\<bar> \<le> 1 / 10 ^ 6 \<and> \<bar>z - 1/7\<bar> \<le> 1 / 10 ^ 6)"
proof
  fix ar
  let ?res = "normalize_quantile ar quantile_data None (7/10) 1 None True (Names []) None"
  have n: "normalized_X True ?res = Some (adata_X (snd ?res))"
    by (simp add: normalized_X_def)
  have v: "valid_layer_norm None" by (simp add: valid_layer_norm_def)
  have r: "rows_of (adata_X quantile_data) = quantile_rows"
    by (simp add: quantile_data_def)
  have c: "0 < ncols quantile_rows" by (simp add: ncols_def quantile_rows_def)
  have g: "\<not> gene_subset ar quantile_rows (7/10) ! 0"
    by (simp add: quantile_rows_subset)
  from column_filter[OF _ _ v _ n, THEN conjunct1] r c g
  have e: "\<exists>r \<in> set quantile_rows. fgt (r ! 0) (fmul ar (fsum ar r) (Fin (7/10)))"
    by simp
  from column_filter[OF _ _ v _ n, THEN conjunct2, THEN conjunct2, rule_format, of "7/10"]
  have x: "\<exists>x y z. normalize_quantile ar quantile_data None (7/10) 1 None True (Names []) None
            = (Inr None, quantile_data\<lparr>adata_X := Dense [[Fin 1, Fin 0, Fin 1],
                 [Fin 3, Fin 0, Fin 1], [Fin x, Fin y, Fin z]]\<rparr>)
          \<and> \<bar>x - 5/7\<bar> \<le> 1 / 10 ^ 6 \<and> \<bar>y - 6/7\<bar> \<le> 1 / 10 ^ 6 \<and> \<bar>z - 1/7\<bar> \<le> 1 / 10 ^ 6"
    by simp
  from g e x
  show "(7/10::real) < 1 \<and> \<not> gene_subset ar quantile_rows (7/10) ! 0
     \<and> (\<exists>r \<in> set quantile_rows. fgt (r ! 0) (fmul ar (fsum ar r) (Fin (7/10))))
     \<and> (\<exists>x y z. normalize_quantile ar quantile_data None (7/10) 1 None True (Names []) None
            = (Inr None, quantile_data\<lparr>adata_X := Dense [[Fin 1, Fin 0, Fin 1],
                 [Fin 3, Fin 0, Fin 1], [Fin x, Fin y, Fin z]]\<rparr>)
          \<and> \<bar>x - 5/7\<bar> \<le> 1 / 10 ^ 6 \<and> \<bar>y - 6/7\<bar> \<le> 1 / 10 ^ 6 \<and> \<bar>z - 1/7\<bar> \<le> 1 / 10 ^ 6)"
    by simp
qed

end
